theory Spec2Isabelle
  imports Complex_Main "HOL-Library.Sublist"
begin

section \<open>Smart queue store: data model\<close>

text \<open>
  The development embeds the smart queue store (auto-queue and radio mode) of the
  player UI: the helper functions \<^verbatim>\<open>applyDiversityFilter\<close>, \<^verbatim>\<open>calculateKeyCompatibility\<close>
  and \<^verbatim>\<open>calculateSeedRelevance\<close>, and the store actions \<^verbatim>\<open>checkAndReplenish\<close>,
  \<^verbatim>\<open>fetchMoreTracks\<close> (its scoring and selection steps), \<^verbatim>\<open>recordTrackPlayed\<close>,
  \<^verbatim>\<open>clearSession\<close> and \<^verbatim>\<open>resetSession\<close>.

  JavaScript numbers that hold scores, weights and audio features are modelled as ideal
  reals; where a division can produce \<^verbatim>\<open>NaN\<close> or \<^verbatim>\<open>Infinity\<close> the model says so explicitly.
  Lengths, indices and millisecond timestamps are integers. \<^verbatim>\<open>Date.now()\<close> is an
  argument of every action that reads the clock.
\<close>

datatype QueueMode = Manual | AutoQueue | Radio

datatype RadioSeedType = SeedTrack | SeedArtist | SeedGenre

datatype QueueSourceType =
  SrcManual | SrcArtist | SrcAlbum | SrcGenre | SrcSimilar | SrcRadio | SrcMood
  | SrcDiscovery | SrcTrending | SrcSearch | SrcLiked | SrcPlaylist | SrcMl | SrcAuto

record QueueSource =
  source_type :: QueueSourceType
  source_label :: string
  source_context :: "string option"
  source_score :: "real option"
  source_timestamp :: int
  source_seedTrackId :: "string option"

text \<open>
  Modelled from the spec: the declarations of \<^verbatim>\<open>AudioFeatures\<close> (module
  \<^verbatim>\<open>ml/advanced-scoring\<close>) and of \<^verbatim>\<open>UnifiedTrack\<close> (package \<^verbatim>\<open>@audiio/core\<close>) are not among
  the sources. The spec describes a track record as id, artists, genres and optional audio
  features \<open>{energy, valence, danceability, bpm, key}\<close>; the records below hold exactly the
  fields the smart queue code reads. An optional field is an \<open>option\<close>.
\<close>

record AudioFeatures =
  bpm :: "real option"
  energy :: "real option"
  key :: "string option"
  valence :: "real option"

record Artist =
  artist_id :: "string option"
  artist_name :: string

record UnifiedTrack =
  track_id :: string
  title :: string
  artists :: "Artist list"
  genres :: "string list option"
  audioFeatures :: "AudioFeatures option"

record RadioSeed =
  seed_type :: RadioSeedType
  seed_id :: string
  seed_name :: string
  seed_genres :: "string list option"
  artistIds :: "string list option"
  seed_audioFeatures :: "AudioFeatures option"

record SmartQueueConfig =
  autoQueueEnabled :: bool
  autoQueueThreshold :: int
  autoQueueBatchSize :: int
  limitArtistRepetition :: bool
  maxArtistPerBatch :: int
  useMLRecommendations :: bool

record RadioConfig =
  seedWeight :: real
  diversityFactor :: real
  progressiveDrift :: bool

record SessionHistory =
  playedTrackIds :: "string list"
  playedArtistIds :: "string list"
  sessionStartTime :: int

record SmartQueueState =
  mode :: QueueMode
  radioSeed :: "RadioSeed option"
  radioTracksPlayed :: nat
  sessionHistory :: SessionHistory
  isAutoQueueFetching :: bool
  lastAutoQueueFetch :: int
  autoQueueError :: "string option"
  consecutiveFailures :: nat
  config :: SmartQueueConfig
  radioConfig :: RadioConfig
  pendingCandidates :: "UnifiedTrack list"
  queueSources :: "string \<rightharpoonup> QueueSource"

definition DEFAULT_CONFIG :: SmartQueueConfig where
  "DEFAULT_CONFIG = \<lparr> autoQueueEnabled = False, autoQueueThreshold = 2,
     autoQueueBatchSize = 10, limitArtistRepetition = True, maxArtistPerBatch = 2,
     useMLRecommendations = True \<rparr>"

definition DEFAULT_RADIO_CONFIG :: RadioConfig where
  "DEFAULT_RADIO_CONFIG = \<lparr> seedWeight = 7 / 10, diversityFactor = 3 / 10,
     progressiveDrift = True \<rparr>"

definition MIN_FETCH_INTERVAL_MS :: int where
  "MIN_FETCH_INTERVAL_MS = 5000"

definition MAX_SESSION_HISTORY :: int where
  "MAX_SESSION_HISTORY = 200"

definition SESSION_TIMEOUT_MS :: int where
  "SESSION_TIMEOUT_MS = 4 * 60 * 60 * 1000"

section \<open>Strings\<close>

text \<open>
  \<^verbatim>\<open>String.prototype.toLowerCase\<close> on the ASCII letters (the characters of the model are
  bytes), and \<^verbatim>\<open>String.prototype.includes\<close>: the argument occurs as a contiguous piece.
\<close>

definition lower_char :: "char \<Rightarrow> char" where
  "lower_char c =
     (let n = (of_char c :: nat) in if 65 \<le> n \<and> n \<le> 90 then char_of (n + 32) else c)"

definition toLowerCase :: "string \<Rightarrow> string" where
  "toLowerCase s = map lower_char s"

fun includes_str :: "string \<Rightarrow> string \<Rightarrow> bool" where
  "includes_str [] sub = (sub = [])"
| "includes_str (c # cs) sub = (prefix sub (c # cs) \<or> includes_str cs sub)"

section \<open>Circle of Fifths key compatibility\<close>

definition KEY_POSITIONS :: "string \<rightharpoonup> nat" where
  "KEY_POSITIONS = map_of
    [(''C'', 0), (''G'', 1), (''D'', 2), (''A'', 3), (''E'', 4), (''B'', 5),
     (''F#'', 6), (''Gb'', 6), (''C#'', 7), (''Db'', 7), (''Ab'', 8), (''G#'', 8),
     (''Eb'', 9), (''D#'', 9), (''Bb'', 10), (''A#'', 10), (''F'', 11),
     (''Am'', 0), (''Em'', 1), (''Bm'', 2), (''F#m'', 3), (''C#m'', 4), (''G#m'', 5),
     (''D#m'', 6), (''Ebm'', 6), (''A#m'', 7), (''Bbm'', 7), (''Fm'', 8),
     (''Cm'', 9), (''Gm'', 10), (''Dm'', 11)]"

text \<open>
  \<^verbatim>\<open>calculateKeyCompatibility(key1, key2)\<close>, lines 278-294. A key that is \<^verbatim>\<open>undefined\<close>
  or the empty string is falsy and gives the neutral 0.5, as does a key with no entry in
  the table. The table is the finite map of the entries written in the source; names that
  a JavaScript object inherits from its prototype (such as \<^verbatim>\<open>constructor\<close>) are not keys
  of the model.
\<close>

definition calculateKeyCompatibility :: "string option \<Rightarrow> string option \<Rightarrow> real" where
  "calculateKeyCompatibility key1 key2 =
     (case (key1, key2) of
        (Some k1, Some k2) \<Rightarrow>
          if k1 = [] \<or> k2 = [] then 1 / 2
          else (case (KEY_POSITIONS k1, KEY_POSITIONS k2) of
                  (Some pos1, Some pos2) \<Rightarrow>
                    (let distance = min \<bar>int pos1 - int pos2\<bar> (12 - \<bar>int pos1 - int pos2\<bar>)
                     in max 0 (1 - real_of_int distance * (2 / 10)))
                | _ \<Rightarrow> 1 / 2)
      | _ \<Rightarrow> 1 / 2)"

text \<open>
  The distance as the specification words it: the smaller of the clockwise and the
  counterclockwise step counts between two of the 12 positions of the circle.
\<close>

definition clockwise_steps :: "nat \<Rightarrow> nat \<Rightarrow> nat" where
  "clockwise_steps p q = nat ((int q - int p) mod 12)"

definition circle_distance :: "nat \<Rightarrow> nat \<Rightarrow> nat" where
  "circle_distance p q = min (clockwise_steps p q) (clockwise_steps q p)"

section \<open>Seed relevance for radio mode\<close>

text \<open>
  \<^verbatim>\<open>calculateSeedRelevance(track, seed)\<close>, lines 300-411. The metadata part is the
  \<^verbatim>\<open>switch\<close> over the seed type; the audio part is the block guarded by
  \<^verbatim>\<open>seed.audioFeatures\<close>, one definition for each of its four features.
  \<^verbatim>\<open>xs?.some(p)\<close> on a missing list is \<^verbatim>\<open>undefined\<close>, which the \<^verbatim>\<open>if\<close> reads as false.
\<close>

definition some_opt :: "('a \<Rightarrow> bool) \<Rightarrow> 'a list option \<Rightarrow> bool" where
  "some_opt p xs = (case xs of None \<Rightarrow> False | Some ys \<Rightarrow> list_ex p ys)"

definition metadataRelevance :: "UnifiedTrack \<Rightarrow> RadioSeed \<Rightarrow> real" where
  "metadataRelevance track seed =
     (case seed_type seed of
        SeedTrack \<Rightarrow>
          (if some_opt (\<lambda>id. list_ex (\<lambda>a. artist_id a = Some id
                  \<or> toLowerCase (artist_name a) = toLowerCase id) (artists track))
                (artistIds seed)
           then 30 else 0)
          + (if some_opt (\<lambda>g. some_opt (\<lambda>tg. includes_str (toLowerCase tg) (toLowerCase g))
                    (genres track))
                  (seed_genres seed)
             then 20 else 0)
      | SeedArtist \<Rightarrow>
          (if list_ex (\<lambda>a. artist_id a = Some (seed_id seed)
                  \<or> toLowerCase (artist_name a) = toLowerCase (seed_name seed)) (artists track)
           then 50 else 0)
          + (if some_opt (\<lambda>g. some_opt (\<lambda>tg. includes_str (toLowerCase tg) (toLowerCase g))
                    (genres track))
                  (seed_genres seed)
             then 20 else 0)
      | SeedGenre \<Rightarrow>
          (if some_opt (\<lambda>g. includes_str (toLowerCase g) (toLowerCase (seed_id seed))
                  \<or> includes_str (toLowerCase (seed_id seed)) (toLowerCase g)) (genres track)
           then 60 else 0))"

text \<open>
  \<^verbatim>\<open>Math.min(bpmDiff / seedFeatures.bpm, 1)\<close>. With a seed bpm of 0 the quotient is
  \<^verbatim>\<open>NaN\<close> when the difference is 0 too (\<open>None\<close>: every comparison with it is false) and
  \<^verbatim>\<open>Infinity\<close> otherwise, whose minimum with 1 is 1.
\<close>

definition bpmRatio :: "real \<Rightarrow> real \<Rightarrow> real option" where
  "bpmRatio seedBpm trackBpm =
     (let bpmDiff = \<bar>seedBpm - trackBpm\<bar>
      in if seedBpm = 0 then (if bpmDiff = 0 then None else Some 1)
         else Some (min (bpmDiff / seedBpm) 1))"

definition bpmBonus :: "AudioFeatures \<Rightarrow> AudioFeatures \<Rightarrow> real" where
  "bpmBonus seedFeatures trackFeatures =
     (case (bpm seedFeatures, bpm trackFeatures) of
        (Some seedBpm, Some trackBpm) \<Rightarrow>
          (case bpmRatio seedBpm trackBpm of
             None \<Rightarrow> 0
           | Some r \<Rightarrow>
               if r \<le> 1 / 10 then 12 else if r \<le> 2 / 10 then 8
               else if r \<le> 3 / 10 then 4 else 0)
      | _ \<Rightarrow> 0)"

definition energyBonus :: "AudioFeatures \<Rightarrow> AudioFeatures \<Rightarrow> real" where
  "energyBonus seedFeatures trackFeatures =
     (case (energy seedFeatures, energy trackFeatures) of
        (Some seedEnergy, Some trackEnergy) \<Rightarrow>
          (let energyDiff = \<bar>seedEnergy - trackEnergy\<bar>
           in if energyDiff \<le> 15 / 100 then 12 else if energyDiff \<le> 25 / 100 then 8
              else if energyDiff \<le> 35 / 100 then 4 else 0)
      | _ \<Rightarrow> 0)"

text \<open>\<^verbatim>\<open>Math.round\<close> rounds to the nearest integer, a half upwards.\<close>

definition js_round :: "real \<Rightarrow> real" where
  "js_round x = of_int \<lfloor>x + 1 / 2\<rfloor>"

definition keyBonus :: "AudioFeatures \<Rightarrow> AudioFeatures \<Rightarrow> real" where
  "keyBonus seedFeatures trackFeatures =
     (case (key seedFeatures, key trackFeatures) of
        (Some seedKey, Some trackKey) \<Rightarrow>
          js_round (calculateKeyCompatibility (Some seedKey) (Some trackKey) * 10)
      | _ \<Rightarrow> 0)"

definition valenceBonus :: "AudioFeatures \<Rightarrow> AudioFeatures \<Rightarrow> real" where
  "valenceBonus seedFeatures trackFeatures =
     (case (valence seedFeatures, valence trackFeatures) of
        (Some seedValence, Some trackValence) \<Rightarrow>
          (let valenceDiff = \<bar>seedValence - trackValence\<bar>
           in if valenceDiff \<le> 2 / 10 then 6 else if valenceDiff \<le> 35 / 100 then 3 else 0)
      | _ \<Rightarrow> 0)"

definition audioBonus :: "AudioFeatures \<Rightarrow> AudioFeatures \<Rightarrow> real" where
  "audioBonus seedFeatures trackFeatures =
     bpmBonus seedFeatures trackFeatures + energyBonus seedFeatures trackFeatures
     + keyBonus seedFeatures trackFeatures + valenceBonus seedFeatures trackFeatures"

text \<open>The empty object that stands in for a track without audio features.\<close>

definition noFeatures :: AudioFeatures where
  "noFeatures = \<lparr> bpm = None, energy = None, key = None, valence = None \<rparr>"

definition calculateSeedRelevance :: "UnifiedTrack \<Rightarrow> RadioSeed \<Rightarrow> real" where
  "calculateSeedRelevance track seed =
     (let relevance = metadataRelevance track seed;
          relevance' =
            (case seed_audioFeatures seed of
               None \<Rightarrow> relevance
             | Some seedFeatures \<Rightarrow>
                 (let trackFeatures =
                        (case audioFeatures track of None \<Rightarrow> noFeatures | Some f \<Rightarrow> f)
                  in relevance + audioBonus seedFeatures trackFeatures))
      in min 100 relevance')"

section \<open>Diversity filter\<close>

text \<open>
  \<^verbatim>\<open>applyDiversityFilter(tracks, limit, maxPerArtist)\<close>, lines 230-259. The filter tells
  tracks apart by object identity (\<^verbatim>\<open>result.includes(t)\<close>), so a track is a reference into
  a heap of track objects: two references may hold equal records and still be different
  tracks, and one reference may occur twice in a list.
\<close>

type_synonym ref = nat

type_synonym heap = "ref \<Rightarrow> UnifiedTrack"

definition mainArtistOf :: "UnifiedTrack \<Rightarrow> string" where
  "mainArtistOf track =
     (case artists track of
        [] \<Rightarrow> ''unknown''
      | a # _ \<Rightarrow> (let n = toLowerCase (artist_name a) in if n = [] then ''unknown'' else n))"

text \<open>
  The \<^verbatim>\<open>for\<close> loop over the tracks, with the \<^verbatim>\<open>result\<close> array and the \<^verbatim>\<open>artistCounts\<close> map
  as accumulators; the \<^verbatim>\<open>break\<close> returns the result reached so far.
\<close>

fun capPass :: "heap \<Rightarrow> int \<Rightarrow> int \<Rightarrow> ref list \<Rightarrow> ref list \<Rightarrow> (string \<rightharpoonup> int) \<Rightarrow> ref list" where
  "capPass h limit maxPerArtist [] result artistCounts = result"
| "capPass h limit maxPerArtist (track # rest) result artistCounts =
     (if int (length result) \<ge> limit then result
      else
        (let mainArtist = mainArtistOf (h track);
             artistCount = (case artistCounts mainArtist of None \<Rightarrow> 0 | Some c \<Rightarrow> c)
         in if artistCount < maxPerArtist
            then capPass h limit maxPerArtist rest (result @ [track])
                   (artistCounts(mainArtist \<mapsto> artistCount + 1))
            else capPass h limit maxPerArtist rest result artistCounts))"

definition backFill :: "ref list \<Rightarrow> int \<Rightarrow> ref list \<Rightarrow> ref list" where
  "backFill tracks limit result =
     (if int (length result) < limit
      then (let remaining = filter (\<lambda>t. t \<notin> set result) tracks
            in take (nat (limit - int (length result))) remaining)
      else [])"

definition applyDiversityFilter :: "heap \<Rightarrow> ref list \<Rightarrow> int \<Rightarrow> int \<Rightarrow> ref list" where
  "applyDiversityFilter h tracks limit maxPerArtist =
     (if tracks = [] then []
      else (let result = capPass h limit maxPerArtist tracks [] Map.empty
            in result @ backFill tracks limit result))"

text \<open>
  How often an artist is the main artist of a track of a list, and how many distinct
  main artists a list has.
\<close>

definition appearances :: "heap \<Rightarrow> string \<Rightarrow> ref list \<Rightarrow> nat" where
  "appearances h a xs = length (filter (\<lambda>t. mainArtistOf (h t) = a) xs)"

definition distinctArtists :: "heap \<Rightarrow> ref list \<Rightarrow> nat" where
  "distinctArtists h xs = card ((\<lambda>t. mainArtistOf (h t)) ` set xs)"

section \<open>Fetching more tracks: exploration mode, base scores, selection\<close>

datatype ExplorationMode = Exploit | Explore | Balanced

text \<open>
  Lines 795-796 and 889-895 of \<^verbatim>\<open>fetchMoreTracks\<close>: the counts are taken from the three
  source lists before deduplication, and the similar tracks count as discovery.
\<close>

definition discoveryRatio :: "'a list \<Rightarrow> 'a list \<Rightarrow> 'a list \<Rightarrow> real" where
  "discoveryRatio localTracks discoveryTracks similarTracks =
     (let localCount = length localTracks;
          discoveryCount = length discoveryTracks + length similarTracks
      in real discoveryCount / real (max 1 (localCount + discoveryCount)))"

definition explorationMode :: "'a list \<Rightarrow> 'a list \<Rightarrow> 'a list \<Rightarrow> ExplorationMode" where
  "explorationMode localTracks discoveryTracks similarTracks =
     (let r = discoveryRatio localTracks discoveryTracks similarTracks
      in if r > 6 / 10 then Exploit else if r < 3 / 10 then Explore else Balanced)"

text \<open>
  The ratio as the specification words it, discovery candidates to local candidates
  (a quotient by zero local candidates is \<^verbatim>\<open>Infinity\<close> or \<^verbatim>\<open>NaN\<close>: \<open>None\<close>).
\<close>

definition spec_discovery_to_local :: "nat \<Rightarrow> nat \<Rightarrow> real option" where
  "spec_discovery_to_local discoveryCount localCount =
     (if localCount = 0 then None else Some (real discoveryCount / real localCount))"

definition spec_explorationMode :: "nat \<Rightarrow> nat \<Rightarrow> ExplorationMode option" where
  "spec_explorationMode discoveryCount localCount =
     map_option (\<lambda>r. if r > 6 / 10 then Exploit else if r < 3 / 10 then Explore else Balanced)
       (spec_discovery_to_local discoveryCount localCount)"

text \<open>
  Lines 921-951: the base score of one candidate. The two scorers of the ML store and
  the recommendation store are collaborators and come in as functions.
\<close>

definition effectiveSeedWeight :: "RadioConfig \<Rightarrow> nat \<Rightarrow> real" where
  "effectiveSeedWeight rc played =
     (if progressiveDrift rc
      then max (3 / 10) (seedWeight rc - real played * (2 / 100))
      else seedWeight rc)"

definition baseScore ::
  "(UnifiedTrack \<Rightarrow> real) \<Rightarrow> (UnifiedTrack \<Rightarrow> real) \<Rightarrow> bool \<Rightarrow> SmartQueueState \<Rightarrow> UnifiedTrack \<Rightarrow> real" where
  "baseScore getHybridScore calculateTrackScore isModelLoaded state track =
     (let useML = (useMLRecommendations (config state) \<and> isModelLoaded);
          rawScore = (if useML then getHybridScore track else calculateTrackScore track)
      in case (mode state, radioSeed state) of
           (Radio, Some seed) \<Rightarrow>
             (let seedRelevance = calculateSeedRelevance track seed;
                  w = effectiveSeedWeight (radioConfig state) (radioTracksPlayed state)
              in rawScore * (1 - w) + seedRelevance * w)
         | _ \<Rightarrow> rawScore)"

text \<open>
  \<^verbatim>\<open>xs.slice(0, end)\<close>: a negative end counts from the end of the array.
\<close>

definition slice_to :: "int \<Rightarrow> 'a list \<Rightarrow> 'a list" where
  "slice_to e xs = (if e < 0 then take (nat (int (length xs) + e)) xs else take (nat e) xs)"

text \<open>
  Lines 864-996, from the deduplicated candidates to the returned batch. Scoring and
  sorting (the advanced scoring module) come in as the function \<open>rank\<close>.
\<close>

definition fetchMoreTracks_selection ::
  "heap \<Rightarrow> SmartQueueConfig \<Rightarrow> (ref list \<Rightarrow> ref list) \<Rightarrow> ref list \<Rightarrow> ref list" where
  "fetchMoreTracks_selection h cfg rank candidates =
     (if length candidates = 0 then []
      else (let selected = rank candidates
            in if limitArtistRepetition cfg
               then applyDiversityFilter h selected (autoQueueBatchSize cfg) (maxArtistPerBatch cfg)
               else slice_to (autoQueueBatchSize cfg) selected))"

section \<open>Session history\<close>

text \<open>\<^verbatim>\<open>xs.slice(start)\<close>: a negative start counts from the end of the array.\<close>

definition slice_from :: "int \<Rightarrow> 'a list \<Rightarrow> 'a list" where
  "slice_from start xs =
     (let len = int (length xs);
          k = (if start < 0 then max (len + start) 0 else min start len)
      in drop (nat k) xs)"

text \<open>\<^verbatim>\<open>a.id || a.name\<close>: a missing or empty id is falsy.\<close>

definition artistKey :: "Artist \<Rightarrow> string" where
  "artistKey a =
     (case artist_id a of None \<Rightarrow> artist_name a
      | Some i \<Rightarrow> if i = [] then artist_name a else i)"

text \<open>\<^verbatim>\<open>recordTrackPlayed(track)\<close>, lines 999-1022.\<close>

definition recordTrackPlayed :: "UnifiedTrack \<Rightarrow> SmartQueueState \<Rightarrow> SmartQueueState" where
  "recordTrackPlayed track state =
     (let newPlayedTrackIds = playedTrackIds (sessionHistory state) @ [track_id track];
          newPlayedArtistIds = playedArtistIds (sessionHistory state)
            @ map artistKey (artists track);
          playedTrackIds' = slice_from (- MAX_SESSION_HISTORY) newPlayedTrackIds;
          playedArtistIds' = slice_from (- (MAX_SESSION_HISTORY * 2)) newPlayedArtistIds
      in state\<lparr> sessionHistory := (sessionHistory state)
                  \<lparr> playedTrackIds := playedTrackIds', playedArtistIds := playedArtistIds' \<rparr>,
                radioTracksPlayed := (if mode state = Radio then radioTracksPlayed state + 1
                                      else radioTracksPlayed state) \<rparr>)"

text \<open>
  \<^verbatim>\<open>clearSession()\<close> and \<^verbatim>\<open>resetSession()\<close>, lines 1147-1166; \<open>now\<close> is \<^verbatim>\<open>Date.now()\<close>.
\<close>

definition clearSession :: "int \<Rightarrow> SmartQueueState \<Rightarrow> SmartQueueState" where
  "clearSession now state =
     state\<lparr> sessionHistory :=
               \<lparr> playedTrackIds = [], playedArtistIds = [], sessionStartTime = now \<rparr>,
            radioTracksPlayed := 0 \<rparr>"

definition resetSession :: "int \<Rightarrow> SmartQueueState \<Rightarrow> SmartQueueState" where
  "resetSession now state =
     (let timeSinceStart = now - sessionStartTime (sessionHistory state)
      in if timeSinceStart > SESSION_TIMEOUT_MS then clearSession now state else state)"

text \<open>
  A timed run of the session actions, to speak about activity: each event carries the
  clock reading at which the action is called.
\<close>

datatype SessionEvent = TrackPlayed UnifiedTrack | ResetSession | ClearSession

fun applyEvent :: "int \<times> SessionEvent \<Rightarrow> SmartQueueState \<Rightarrow> SmartQueueState" where
  "applyEvent (now, TrackPlayed track) state = recordTrackPlayed track state"
| "applyEvent (now, ResetSession) state = resetSession now state"
| "applyEvent (now, ClearSession) state = clearSession now state"

definition runEvents :: "(int \<times> SessionEvent) list \<Rightarrow> SmartQueueState \<Rightarrow> SmartQueueState" where
  "runEvents events state = foldl (\<lambda>s e. applyEvent e s) state events"

text \<open>
  The time of the last activity as the specification words it: the last track played,
  or the start of the session when nothing was played since.
\<close>

fun spec_lastActivity :: "int \<Rightarrow> (int \<times> SessionEvent) list \<Rightarrow> int" where
  "spec_lastActivity start [] = start"
| "spec_lastActivity start ((t, TrackPlayed track) # events) = spec_lastActivity t events"
| "spec_lastActivity start ((t, ClearSession) # events) = spec_lastActivity t events"
| "spec_lastActivity start ((t, ResetSession) # events) = spec_lastActivity start events"

definition sessionCleared :: "int \<Rightarrow> SmartQueueState \<Rightarrow> bool" where
  "sessionCleared now state =
     (playedTrackIds (sessionHistory state) = []
      \<and> playedArtistIds (sessionHistory state) = []
      \<and> sessionStartTime (sessionHistory state) = now)"

section \<open>Replenishing the queue\<close>

text \<open>
  Modelled from the spec: the player store (\<^verbatim>\<open>player-store\<close>) is not among the sources.
  The spec's replenishment trigger speaks of the remaining queue length; the record holds
  the three fields the replenishment reads (queue, queue index, current track). The
  store's \<^verbatim>\<open>addToQueue\<close> comes in as a function.
\<close>

record PlayerStore =
  queue :: "UnifiedTrack list"
  queueIndex :: int
  currentTrack :: "UnifiedTrack option"

record World =
  store :: SmartQueueState
  player :: PlayerStore

text \<open>
  What the awaited \<^verbatim>\<open>fetchMoreTracks\<close> call does: it resolves with a list of tracks or
  throws, an \<^verbatim>\<open>Error\<close> object with its message or some other value.
\<close>

datatype Thrown = ErrorObject string | OtherValue

datatype FetchOutcome = Resolved "UnifiedTrack list" | Rejected Thrown

record Collaborators =
  fetchMoreTracks :: "World \<Rightarrow> UnifiedTrack list \<Rightarrow> FetchOutcome"
  determineTrackSource :: "UnifiedTrack \<Rightarrow> UnifiedTrack option \<Rightarrow> QueueSource"
  addToQueue :: "UnifiedTrack \<Rightarrow> PlayerStore \<Rightarrow> PlayerStore"

text \<open>
  \<^verbatim>\<open>checkAndReplenish(availableTracks)\<close>, lines 529-598, run without interleaving of other
  actions. \<open>now\<close> is the clock at the rate-limit check and \<open>now'\<close> the clock when the fetch
  has come back. The result says whether \<^verbatim>\<open>fetchMoreTracks\<close> was called, and gives the
  stores afterwards.
\<close>

definition checkAndReplenish ::
  "Collaborators \<Rightarrow> int \<Rightarrow> int \<Rightarrow> UnifiedTrack list \<Rightarrow> World \<Rightarrow> bool \<times> World" where
  "checkAndReplenish env now now' availableTracks w =
     (let state = store w in
      if mode state = Manual then (False, w)
      else if \<not> autoQueueEnabled (config state) \<and> mode state \<noteq> Radio then (False, w)
      else if isAutoQueueFetching state then (False, w)
      else if now - lastAutoQueueFetch state < MIN_FETCH_INTERVAL_MS then (False, w)
      else
        (let playerStore = player w;
             remainingTracks = int (length (queue playerStore)) - queueIndex playerStore - 1
         in if remainingTracks \<le> autoQueueThreshold (config state)
            then
              (let w1 = w\<lparr> store := state\<lparr> isAutoQueueFetching := True \<rparr> \<rparr>
               in case fetchMoreTracks env w1 availableTracks of
                    Resolved newTracks \<Rightarrow>
                      if length newTracks > 0
                      then
                        (let newSources = foldl (\<lambda>m track. m(track_id track \<mapsto>
                                 determineTrackSource env track (currentTrack playerStore)))
                               Map.empty newTracks;
                             player' = foldl (\<lambda>p track. addToQueue env track p)
                               (player w1) newTracks
                         in (True, \<lparr> store = (store w1)\<lparr> isAutoQueueFetching := False,
                                        lastAutoQueueFetch := now',
                                        autoQueueError := None,
                                        consecutiveFailures := 0,
                                        queueSources := queueSources (store w1) ++ newSources \<rparr>,
                                     player = player' \<rparr>))
                      else (True, w1\<lparr> store := (store w1)\<lparr> isAutoQueueFetching := False,
                                        lastAutoQueueFetch := now',
                                        autoQueueError := Some ''No matching tracks found'',
                                        consecutiveFailures := consecutiveFailures state + 1 \<rparr> \<rparr>)
                  | Rejected error \<Rightarrow>
                      (let message = (case error of ErrorObject m \<Rightarrow> m
                                       | OtherValue \<Rightarrow> ''Failed to fetch tracks'')
                       in (True, w1\<lparr> store := (store w1)\<lparr> isAutoQueueFetching := False,
                                        lastAutoQueueFetch := now',
                                        autoQueueError := Some message,
                                        consecutiveFailures := consecutiveFailures state + 1 \<rparr> \<rparr>)))
            else (False, w)))"

section \<open>Auxiliary notions and example data\<close>

text \<open>
  The invariant of the filter's loop: the \<^verbatim>\<open>artistCounts\<close> map holds, for every artist,
  the number of its tracks in \<^verbatim>\<open>result\<close> (a missing entry reads as 0).
\<close>

definition counts_agree :: "heap \<Rightarrow> (string \<rightharpoonup> int) \<Rightarrow> ref list \<Rightarrow> bool" where
  "counts_agree h artistCounts result =
     (\<forall>a. (case artistCounts a of None \<Rightarrow> 0 | Some c \<Rightarrow> c) = int (appearances h a result))"

text \<open>Concrete tracks, heaps and states on which the theorems are instantiated.\<close>

definition exampleTrack :: "string \<Rightarrow> string \<Rightarrow> UnifiedTrack" where
  "exampleTrack i a = \<lparr> track_id = i, title = i,
     artists = [\<lparr> artist_id = None, artist_name = a \<rparr>], genres = None,
     audioFeatures = None \<rparr>"

definition exampleHeap :: heap where
  "exampleHeap r = (if r < 3 then exampleTrack ''t'' ''Ann'' else exampleTrack ''t'' ''Bob'')"

definition exampleFeatures :: "real \<Rightarrow> AudioFeatures" where
  "exampleFeatures b = \<lparr> bpm = Some b, energy = None, key = None, valence = None \<rparr>"

definition exampleSeed :: RadioSeed where
  "exampleSeed = \<lparr> seed_type = SeedArtist, seed_id = ''a1'', seed_name = ''Ann'',
     seed_genres = None, artistIds = None,
     seed_audioFeatures = Some (exampleFeatures 120) \<rparr>"

definition exampleState :: SmartQueueState where
  "exampleState = \<lparr> mode = Manual, radioSeed = None, radioTracksPlayed = 0,
     sessionHistory = \<lparr> playedTrackIds = [], playedArtistIds = [], sessionStartTime = 0 \<rparr>,
     isAutoQueueFetching = False, lastAutoQueueFetch = 0, autoQueueError = None,
     consecutiveFailures = 0, config = DEFAULT_CONFIG, radioConfig = DEFAULT_RADIO_CONFIG,
     pendingCandidates = [], queueSources = Map.empty \<rparr>"

definition exampleRadioState :: SmartQueueState where
  "exampleRadioState = exampleState\<lparr> mode := Radio, radioSeed := Some exampleSeed,
     radioTracksPlayed := 5 \<rparr>"

definition exampleEvents :: "(int \<times> SessionEvent) list" where
  "exampleEvents = [(14399000, TrackPlayed (exampleTrack ''t1'' ''Ann''))]"

definition exampleEnv :: Collaborators where
  "exampleEnv = \<lparr> fetchMoreTracks = (\<lambda>w availableTracks. Resolved []),
     determineTrackSource = (\<lambda>track current. \<lparr> source_type = SrcMl,
        source_label = ''Recommended for you'', source_context = None, source_score = None,
        source_timestamp = 0, source_seedTrackId = None \<rparr>),
     addToQueue = (\<lambda>track p. p\<lparr> queue := queue p @ [track] \<rparr>) \<rparr>"

definition exampleWorld :: World where
  "exampleWorld = \<lparr> store = exampleRadioState,
     player = \<lparr> queue = [exampleTrack ''t1'' ''Ann''], queueIndex = 0, currentTrack = None \<rparr> \<rparr>"

section \<open>Key compatibility: theorems\<close>

lemma KEY_POSITIONS_range:
  "KEY_POSITIONS k = Some p \<Longrightarrow> p < 12 \<and> k \<noteq> []"
  unfolding KEY_POSITIONS_def
  by (simp split: if_splits)

lemma mod12_of_negative:
  fixes x :: int
  assumes "- 12 < x" "x < 0"
  shows "x mod 12 = x + 12"
proof -
  have "(x + 12) mod 12 = x + 12"
    using assms by (intro mod_pos_pos_trivial) simp_all
  moreover have "(x + 12) mod 12 = x mod 12"
    by simp
  ultimately show ?thesis by simp
qed

lemma circle_distance_code_form:
  assumes "p < 12" "q < 12"
  shows "int (circle_distance p q) = min \<bar>int p - int q\<bar> (12 - \<bar>int p - int q\<bar>)"
proof -
  consider (lt) "q < p" | (eq) "q = p" | (gt) "p < q" by arith
  then show ?thesis
  proof cases
    case lt
    have a: "(int q - int p) mod 12 = int q - int p + 12"
      using lt assms by (intro mod12_of_negative) simp_all
    have b: "(int p - int q) mod 12 = int p - int q"
      using lt assms by (intro mod_pos_pos_trivial) simp_all
    show ?thesis
      using lt assms unfolding circle_distance_def clockwise_steps_def a b by simp
  next
    case eq
    then show ?thesis
      unfolding circle_distance_def clockwise_steps_def by simp
  next
    case gt
    have a: "(int q - int p) mod 12 = int q - int p"
      using gt assms by (intro mod_pos_pos_trivial) simp_all
    have b: "(int p - int q) mod 12 = int p - int q + 12"
      using gt assms by (intro mod12_of_negative) simp_all
    show ?thesis
      using gt assms unfolding circle_distance_def clockwise_steps_def a b by simp
  qed
qed

text \<open>
  C1. For every pair of keys of the key-position table, \<^verbatim>\<open>calculateKeyCompatibility\<close>
  is \<open>max(0, 1 - distance * 0.2)\<close>, where the distance is the smaller of the clockwise and
  counterclockwise step counts between the two positions on the 12-position circle; for
  the keys C and G the result is 0.8.
\<close>

theorem C1_key_compatibility:
  "(\<forall>key1 key2 pos1 pos2.
      KEY_POSITIONS key1 = Some pos1 \<and> KEY_POSITIONS key2 = Some pos2 \<longrightarrow>
      calculateKeyCompatibility (Some key1) (Some key2)
        = max 0 (1 - real (circle_distance pos1 pos2) * (2 / 10)))
   \<and> calculateKeyCompatibility (Some ''C'') (Some ''G'') = 8 / 10"
proof (intro conjI allI impI)
  fix key1 key2 pos1 pos2
  assume h: "KEY_POSITIONS key1 = Some pos1 \<and> KEY_POSITIONS key2 = Some pos2"
  then have r1: "pos1 < 12" "key1 \<noteq> []" and r2: "pos2 < 12" "key2 \<noteq> []"
    using KEY_POSITIONS_range by blast+
  have d: "min \<bar>int pos1 - int pos2\<bar> (12 - \<bar>int pos1 - int pos2\<bar>)
             = int (circle_distance pos1 pos2)"
    using circle_distance_code_form [OF r1(1) r2(1)] by simp
  show "calculateKeyCompatibility (Some key1) (Some key2)
          = max 0 (1 - real (circle_distance pos1 pos2) * (2 / 10))"
    using h r1(2) r2(2) unfolding calculateKeyCompatibility_def
    by (simp add: d)
next
  show "calculateKeyCompatibility (Some ''C'') (Some ''G'') = 8 / 10"
    unfolding calculateKeyCompatibility_def KEY_POSITIONS_def by simp
qed

theorem C1_key_compatibility_witness:
  "KEY_POSITIONS ''F#m'' = Some 3 \<and> KEY_POSITIONS ''Dm'' = Some 11
   \<and> circle_distance 3 11 = 4
   \<and> calculateKeyCompatibility (Some ''F#m'') (Some ''Dm'') = 2 / 10"
proof -
  have k: "KEY_POSITIONS ''F#m'' = Some 3 \<and> KEY_POSITIONS ''Dm'' = Some 11"
    unfolding KEY_POSITIONS_def by simp
  have c: "circle_distance 3 11 = 4"
    unfolding circle_distance_def clockwise_steps_def by simp
  from C1_key_compatibility k
  have "calculateKeyCompatibility (Some ''F#m'') (Some ''Dm'')
          = max 0 (1 - real (circle_distance 3 11) * (2 / 10))"
    by blast
  then show ?thesis using k c by simp
qed

section \<open>Diversity filter: theorems\<close>

lemma appearances_Nil [simp]: "appearances h a [] = 0"
  by (simp add: appearances_def)

lemma appearances_Cons:
  "appearances h a (t # ts) = (if mainArtistOf (h t) = a then 1 else 0) + appearances h a ts"
  by (simp add: appearances_def)

lemma appearances_snoc:
  "appearances h a (xs @ [t]) = appearances h a xs + (if mainArtistOf (h t) = a then 1 else 0)"
  by (simp add: appearances_def)

lemma counts_agree_empty: "counts_agree h Map.empty []"
  by (simp add: counts_agree_def)

lemma counts_agree_step:
  assumes "counts_agree h artistCounts result"
  shows "counts_agree h
           (artistCounts(mainArtistOf (h t) \<mapsto>
              (case artistCounts (mainArtistOf (h t)) of None \<Rightarrow> 0 | Some c \<Rightarrow> c) + 1))
           (result @ [t])"
  using assms unfolding counts_agree_def
  by (auto simp: appearances_snoc)

lemma capPass_cap:
  assumes "counts_agree h artistCounts result"
    and "\<forall>a. 0 < appearances h a result \<longrightarrow> int (appearances h a result) \<le> k"
  shows "\<forall>a. 0 < appearances h a (capPass h n k ts result artistCounts)
           \<longrightarrow> int (appearances h a (capPass h n k ts result artistCounts)) \<le> k"
  using assms
proof (induction ts arbitrary: result artistCounts)
  case Nil
  then show ?case by simp
next
  case (Cons t ts)
  let ?a = "mainArtistOf (h t)"
  let ?c = "case artistCounts ?a of None \<Rightarrow> 0 | Some c \<Rightarrow> c"
  have c_eq: "?c = int (appearances h ?a result)"
    using Cons.prems(1) unfolding counts_agree_def by blast
  show ?case
  proof (cases "int (length result) \<ge> n")
    case True
    then show ?thesis using Cons.prems(2) by simp
  next
    case False
    show ?thesis
    proof (cases "?c < k")
      case True
      have agree': "counts_agree h (artistCounts(?a \<mapsto> ?c + 1)) (result @ [t])"
        using counts_agree_step [OF Cons.prems(1)] .
      have cap': "\<forall>a. 0 < appearances h a (result @ [t])
                    \<longrightarrow> int (appearances h a (result @ [t])) \<le> k"
        using Cons.prems(2) True c_eq by (auto simp: appearances_snoc)
      have eq: "capPass h n k (t # ts) result artistCounts
              = capPass h n k ts (result @ [t]) (artistCounts(?a \<mapsto> ?c + 1))"
        using False True by (simp add: Let_def)
      show ?thesis unfolding eq by (rule Cons.IH [OF agree' cap'])
    next
      case nott: False
      have eq: "capPass h n k (t # ts) result artistCounts = capPass h n k ts result artistCounts"
        using False nott by (simp add: Let_def)
      show ?thesis unfolding eq by (rule Cons.IH [OF Cons.prems(1) Cons.prems(2)])
    qed
  qed
qed

lemma capPass_fill:
  assumes "counts_agree h artistCounts result"
  shows "n \<le> int (length (capPass h n k ts result artistCounts))
         \<or> (\<forall>a. min k (int (appearances h a result) + int (appearances h a ts))
                  \<le> int (appearances h a (capPass h n k ts result artistCounts)))"
  using assms
proof (induction ts arbitrary: result artistCounts)
  case Nil
  then show ?case by simp
next
  case (Cons t ts)
  let ?a = "mainArtistOf (h t)"
  let ?c = "case artistCounts ?a of None \<Rightarrow> 0 | Some c \<Rightarrow> c"
  have c_eq: "?c = int (appearances h ?a result)"
    using Cons.prems(1) unfolding counts_agree_def by blast
  show ?case
  proof (cases "int (length result) \<ge> n")
    case True
    then show ?thesis by simp
  next
    case False
    show ?thesis
    proof (cases "?c < k")
      case True
      have agree': "counts_agree h (artistCounts(?a \<mapsto> ?c + 1)) (result @ [t])"
        using counts_agree_step [OF Cons.prems(1)] .
      have eq: "capPass h n k (t # ts) result artistCounts
              = capPass h n k ts (result @ [t]) (artistCounts(?a \<mapsto> ?c + 1))"
        using False True by (simp add: Let_def)
      have re: "\<And>a. int (appearances h a (result @ [t])) + int (appearances h a ts)
                   = int (appearances h a result) + int (appearances h a (t # ts))"
        by (simp add: appearances_snoc appearances_Cons)
      show ?thesis
        unfolding eq using Cons.IH [OF agree'] unfolding re .
    next
      case nott: False
      have eq: "capPass h n k (t # ts) result artistCounts = capPass h n k ts result artistCounts"
        using False nott by (simp add: Let_def)
      from Cons.IH [OF Cons.prems(1)]
      show ?thesis
      proof
        assume "n \<le> int (length (capPass h n k ts result artistCounts))"
        then show ?thesis unfolding eq by simp
      next
        assume ih: "\<forall>a. min k (int (appearances h a result) + int (appearances h a ts))
                  \<le> int (appearances h a (capPass h n k ts result artistCounts))"
        have "\<forall>a. min k (int (appearances h a result) + int (appearances h a (t # ts)))
                  \<le> int (appearances h a (capPass h n k ts result artistCounts))"
        proof
          fix a
          show "min k (int (appearances h a result) + int (appearances h a (t # ts)))
                  \<le> int (appearances h a (capPass h n k ts result artistCounts))"
          proof (cases "?a = a")
            case True
            have "k \<le> int (appearances h a result)" using nott c_eq True by simp
            then have "min k (int (appearances h a result) + int (appearances h a ts)) = k"
              by simp
            moreover have "min k (int (appearances h a result) + int (appearances h a (t # ts))) \<le> k"
              by simp
            ultimately show ?thesis using ih by (metis order_trans)
          next
            case False
            then show ?thesis using ih by (simp add: appearances_Cons)
          qed
        qed
        then show ?thesis unfolding eq by blast
      qed
    qed
  qed
qed

lemma sum_appearances_le_length:
  assumes "finite A"
  shows "(\<Sum>a\<in>A. appearances h a xs) \<le> length xs"
proof (induction xs)
  case Nil
  then show ?case by simp
next
  case (Cons x xs)
  have "(\<Sum>a\<in>A. appearances h a (x # xs))
          = (\<Sum>a\<in>A. (if mainArtistOf (h x) = a then 1 else 0)) + (\<Sum>a\<in>A. appearances h a xs)"
    by (simp add: appearances_Cons sum.distrib)
  also have "(\<Sum>a\<in>A. (if mainArtistOf (h x) = a then 1 else 0 :: nat)) \<le> 1"
    using assms by (simp add: sum.delta')
  finally show ?case using Cons.IH by simp
qed


lemma appearances_take_le: "appearances h a (take m xs) \<le> appearances h a xs"
proof -
  have "appearances h a xs = appearances h a (take m xs) + appearances h a (drop m xs)"
    unfolding appearances_def by (metis append_take_drop_id filter_append length_append)
  then show ?thesis by simp
qed

lemma appearances_pos_iff: "0 < appearances h a xs \<longleftrightarrow> (\<exists>t\<in>set xs. mainArtistOf (h t) = a)"
  unfolding appearances_def by (simp add: length_greater_0_conv filter_empty_conv)

lemma capPass_length_ge:
  assumes enough: "\<forall>t\<in>set tracks. k \<le> int (appearances h (mainArtistOf (h t)) tracks)"
  shows "min n (k * int (distinctArtists h tracks))
           \<le> int (length (capPass h n k tracks [] Map.empty))"
proof -
  let ?out = "capPass h n k tracks [] Map.empty"
  let ?A = "(\<lambda>t. mainArtistOf (h t)) ` set tracks"
  from capPass_fill [OF counts_agree_empty, of n h k tracks]
  show ?thesis
  proof
    assume "n \<le> int (length ?out)"
    then show ?thesis by simp
  next
    assume fill: "\<forall>a. min k (int (appearances h a []) + int (appearances h a tracks))
                    \<le> int (appearances h a ?out)"
    have each: "k \<le> int (appearances h a ?out)" if "a \<in> ?A" for a
    proof -
      from that obtain t where "t \<in> set tracks" "a = mainArtistOf (h t)" by auto
      then have "k \<le> int (appearances h a tracks)" using enough by simp
      then show ?thesis using fill [rule_format, of a] by simp
    qed
    have "k * int (card ?A) = (\<Sum>a\<in>?A. k)" by simp
    also have "\<dots> \<le> (\<Sum>a\<in>?A. int (appearances h a ?out))"
      using each by (intro sum_mono) simp
    also have "\<dots> = int (\<Sum>a\<in>?A. appearances h a ?out)"
      by (simp only: of_nat_sum)
    also have "\<dots> \<le> int (length ?out)"
      by (rule of_nat_mono) (rule sum_appearances_le_length, simp)
    finally show ?thesis unfolding distinctArtists_def by simp
  qed
qed

text \<open>
  C2. If the input holds at least \<open>k\<close> tracks of each of its distinct main artists, then
  among the first \<open>min(N, k * distinctArtists)\<close> tracks that
  \<^verbatim>\<open>applyDiversityFilter(tracks, N, k)\<close> returns no main artist appears more than \<open>k\<close>
  times. The returned list is the cap-respecting pass followed by the back-fill, and the
  back-fill adds tracks only when the pass selected fewer than \<open>N\<close> tracks.
\<close>

theorem C2_diversity_filter:
  assumes enough: "\<forall>t\<in>set tracks. k \<le> int (appearances h (mainArtistOf (h t)) tracks)"
  shows "(\<forall>t\<in>set (take (nat (min n (k * int (distinctArtists h tracks))))
                     (applyDiversityFilter h tracks n k)).
            int (appearances h (mainArtistOf (h t))
                   (take (nat (min n (k * int (distinctArtists h tracks))))
                      (applyDiversityFilter h tracks n k))) \<le> k)
         \<and> applyDiversityFilter h tracks n k
             = capPass h n k tracks [] Map.empty
               @ backFill tracks n (capPass h n k tracks [] Map.empty)
         \<and> (backFill tracks n (capPass h n k tracks [] Map.empty) \<noteq> []
              \<longrightarrow> int (length (capPass h n k tracks [] Map.empty)) < n)"
proof (intro conjI)
  let ?pass = "capPass h n k tracks [] Map.empty"
  let ?m = "nat (min n (k * int (distinctArtists h tracks)))"
  show split: "applyDiversityFilter h tracks n k = ?pass @ backFill tracks n ?pass"
    unfolding applyDiversityFilter_def backFill_def by (simp add: Let_def)
  show "backFill tracks n ?pass \<noteq> [] \<longrightarrow> int (length ?pass) < n"
    unfolding backFill_def by simp
  have len: "?m \<le> length ?pass"
    using capPass_length_ge [OF enough, of n] by simp
  have tk: "take ?m (applyDiversityFilter h tracks n k) = take ?m ?pass"
    unfolding split using len by simp
  have cap: "\<forall>a. 0 < appearances h a ?pass \<longrightarrow> int (appearances h a ?pass) \<le> k"
    by (rule capPass_cap [OF counts_agree_empty]) simp
  show "\<forall>t\<in>set (take ?m (applyDiversityFilter h tracks n k)).
          int (appearances h (mainArtistOf (h t))
                 (take ?m (applyDiversityFilter h tracks n k))) \<le> k"
    unfolding tk
  proof
    fix t
    assume "t \<in> set (take ?m ?pass)"
    then have "t \<in> set ?pass" by (rule in_set_takeD)
    then have "0 < appearances h (mainArtistOf (h t)) ?pass"
      unfolding appearances_pos_iff by blast
    then have "int (appearances h (mainArtistOf (h t)) ?pass) \<le> k"
      using cap by blast
    moreover have "appearances h (mainArtistOf (h t)) (take ?m ?pass)
                     \<le> appearances h (mainArtistOf (h t)) ?pass"
      by (rule appearances_take_le)
    ultimately show "int (appearances h (mainArtistOf (h t)) (take ?m ?pass)) \<le> k"
      by linarith
  qed
qed

theorem C2_diversity_filter_witness:
  "distinctArtists exampleHeap [0, 1, 2, 3, 4] = 2
   \<and> applyDiversityFilter exampleHeap [0, 1, 2, 3, 4] 4 2 = [0, 1, 3, 4]
   \<and> int (appearances exampleHeap (mainArtistOf (exampleHeap 0))
            (take (nat (min 4 (2 * int (distinctArtists exampleHeap [0, 1, 2, 3, 4]))))
               (applyDiversityFilter exampleHeap [0, 1, 2, 3, 4] 4 2))) \<le> 2
   \<and> backFill [0, 1, 2, 3, 4] 4 (capPass exampleHeap 4 2 [0, 1, 2, 3, 4] [] Map.empty) = []
   \<and> applyDiversityFilter exampleHeap [0, 1, 2, 3] 3 1 = [0, 3, 1]
   \<and> backFill [0, 1, 2, 3] 3 (capPass exampleHeap 3 1 [0, 1, 2, 3] [] Map.empty) = [1]
   \<and> int (length (capPass exampleHeap 3 1 [0, 1, 2, 3] [] Map.empty)) < 3"
proof -
  have prem: "\<forall>t\<in>set [0, 1, 2, 3, 4].
     2 \<le> int (appearances exampleHeap (mainArtistOf (exampleHeap t)) [0, 1, 2, 3, 4])"
    by code_simp
  have out: "applyDiversityFilter exampleHeap [0, 1, 2, 3, 4] 4 2 = [0, 1, 3, 4]"
    by code_simp
  have d: "distinctArtists exampleHeap [0, 1, 2, 3, 4] = 2"
    by code_simp
  have bf: "backFill [0, 1, 2, 3, 4] 4 (capPass exampleHeap 4 2 [0, 1, 2, 3, 4] [] Map.empty) = []"
    by code_simp
  have mem: "0 \<in> set (take (nat (min 4 (2 * int (distinctArtists exampleHeap [0, 1, 2, 3, 4]))))
               (applyDiversityFilter exampleHeap [0, 1, 2, 3, 4] 4 2))"
    unfolding out d by simp
  from C2_diversity_filter [OF prem, of 4] mem
  have cap: "int (appearances exampleHeap (mainArtistOf (exampleHeap 0))
            (take (nat (min 4 (2 * int (distinctArtists exampleHeap [0, 1, 2, 3, 4]))))
               (applyDiversityFilter exampleHeap [0, 1, 2, 3, 4] 4 2))) \<le> 2"
    by blast
  have prem': "\<forall>t\<in>set [0, 1, 2, 3].
     1 \<le> int (appearances exampleHeap (mainArtistOf (exampleHeap t)) [0, 1, 2, 3])"
    by code_simp
  have out': "applyDiversityFilter exampleHeap [0, 1, 2, 3] 3 1 = [0, 3, 1]"
    by code_simp
  have bf': "backFill [0, 1, 2, 3] 3 (capPass exampleHeap 3 1 [0, 1, 2, 3] [] Map.empty) = [1]"
    by code_simp
  have ne: "backFill [0, 1, 2, 3] 3 (capPass exampleHeap 3 1 [0, 1, 2, 3] [] Map.empty) \<noteq> []"
    unfolding bf' by simp
  from C2_diversity_filter [OF prem', of 3] ne
  have short: "int (length (capPass exampleHeap 3 1 [0, 1, 2, 3] [] Map.empty)) < 3"
    by blast
  show ?thesis
    by (intro conjI d out cap bf out' bf' short)
qed

section \<open>Seed relevance: theorems\<close>














section \<open>BPM bonus: theorems\<close>

lemma bpmRatio_nonzero:
  "seedBpm \<noteq> 0 \<Longrightarrow> bpmRatio seedBpm trackBpm = Some (min (\<bar>seedBpm - trackBpm\<bar> / seedBpm) 1)"
  unfolding bpmRatio_def by (simp add: Let_def)

text \<open>
  C3. When the seed and the track both have a bpm, the BPM part of the audio bonus is 12
  whenever \<open>min(|seedBpm - trackBpm| / seedBpm, 1) \<le> 0.1\<close>; the audio bonus is then 12 plus
  the energy, key and valence parts. A seed at 120 bpm and a track at 125 bpm have the
  ratio 1/24 (about 0.0417) and receive the 12.
\<close>

theorem C3_bpm_full_bonus:
  "(bpm seedFeatures = Some seedBpm \<and> bpm trackFeatures = Some trackBpm
      \<and> bpmRatio seedBpm trackBpm = Some r \<and> r \<le> 1 / 10 \<longrightarrow>
      bpmBonus seedFeatures trackFeatures = 12
      \<and> audioBonus seedFeatures trackFeatures
          = 12 + energyBonus seedFeatures trackFeatures + keyBonus seedFeatures trackFeatures
            + valenceBonus seedFeatures trackFeatures)
   \<and> (seedBpm \<noteq> 0 \<longrightarrow>
        bpmRatio seedBpm trackBpm = Some (min (\<bar>seedBpm - trackBpm\<bar> / seedBpm) 1))
   \<and> bpmRatio 120 125 = Some (1 / 24)
   \<and> (bpm seedFeatures = Some 120 \<and> bpm trackFeatures = Some 125 \<longrightarrow>
        bpmBonus seedFeatures trackFeatures = 12)"
proof (intro conjI impI)
  assume h: "bpm seedFeatures = Some seedBpm \<and> bpm trackFeatures = Some trackBpm
      \<and> bpmRatio seedBpm trackBpm = Some r \<and> r \<le> 1 / 10"
  then show b: "bpmBonus seedFeatures trackFeatures = 12"
    unfolding bpmBonus_def by simp
  show "audioBonus seedFeatures trackFeatures
          = 12 + energyBonus seedFeatures trackFeatures + keyBonus seedFeatures trackFeatures
            + valenceBonus seedFeatures trackFeatures"
    unfolding audioBonus_def b by simp
next
  assume "seedBpm \<noteq> 0"
  then show "bpmRatio seedBpm trackBpm = Some (min (\<bar>seedBpm - trackBpm\<bar> / seedBpm) 1)"
    by (rule bpmRatio_nonzero)
next
  show r: "bpmRatio 120 125 = Some (1 / 24)"
    unfolding bpmRatio_def by (simp add: Let_def)
  assume "bpm seedFeatures = Some 120 \<and> bpm trackFeatures = Some 125"
  then show "bpmBonus seedFeatures trackFeatures = 12"
    by (simp add: bpmBonus_def r)
qed

theorem C3_bpm_full_bonus_witness:
  "bpm (exampleFeatures 120) = Some 120 \<and> bpm (exampleFeatures 125) = Some 125
   \<and> bpmRatio 120 125 = Some (1 / 24) \<and> (1 / 24 :: real) \<le> 1 / 10
   \<and> bpmBonus (exampleFeatures 120) (exampleFeatures 125) = 12
   \<and> audioBonus (exampleFeatures 120) (exampleFeatures 125) = 12
   \<and> calculateSeedRelevance
        ((exampleTrack ''t1'' ''Ann'')\<lparr>audioFeatures := Some (exampleFeatures 125)\<rparr>)
        exampleSeed = 62"
proof -
  have f: "bpm (exampleFeatures 120) = Some 120 \<and> bpm (exampleFeatures 125) = Some 125"
    unfolding exampleFeatures_def by simp
  have r: "bpmRatio 120 125 = Some (1 / 24) \<and> (1 / 24 :: real) \<le> 1 / 10"
    unfolding bpmRatio_def by (simp add: Let_def)
  from C3_bpm_full_bonus [of "exampleFeatures 120" 120 "exampleFeatures 125" 125 "1 / 24"] f r
  have b: "bpmBonus (exampleFeatures 120) (exampleFeatures 125) = 12
      \<and> audioBonus (exampleFeatures 120) (exampleFeatures 125)
          = 12 + energyBonus (exampleFeatures 120) (exampleFeatures 125)
            + keyBonus (exampleFeatures 120) (exampleFeatures 125)
            + valenceBonus (exampleFeatures 120) (exampleFeatures 125)"
    by blast
  have rest: "energyBonus (exampleFeatures 120) (exampleFeatures 125) = 0
      \<and> keyBonus (exampleFeatures 120) (exampleFeatures 125) = 0
      \<and> valenceBonus (exampleFeatures 120) (exampleFeatures 125) = 0"
    unfolding energyBonus_def keyBonus_def valenceBonus_def exampleFeatures_def by simp
  have a: "audioBonus (exampleFeatures 120) (exampleFeatures 125) = 12"
    using b rest by simp
  have nz: "(120 :: real) \<noteq> 0" by simp
  from C3_bpm_full_bonus [of "exampleFeatures 120" 120 "exampleFeatures 125" 125 "1 / 24"] nz
  have q: "bpmRatio 120 125 = Some (min (\<bar>120 - 125\<bar> / 120) 1)"
    by blast
  from C3_bpm_full_bonus [of "exampleFeatures 120" 120 "exampleFeatures 125" 125 "1 / 24"] f
  have b': "bpmBonus (exampleFeatures 120) (exampleFeatures 125) = 12"
    by blast
  have m: "metadataRelevance
        ((exampleTrack ''t1'' ''Ann'')\<lparr>audioFeatures := Some (exampleFeatures 125)\<rparr>)
        exampleSeed = 50"
    by code_simp
  have c: "calculateSeedRelevance
        ((exampleTrack ''t1'' ''Ann'')\<lparr>audioFeatures := Some (exampleFeatures 125)\<rparr>)
        exampleSeed = 62"
    unfolding calculateSeedRelevance_def m
    by (simp add: exampleSeed_def a)
  show ?thesis using f r b' q a c by simp
qed

section \<open>Radio base score: theorems\<close>

lemma effectiveSeedWeight_mono:
  "n \<le> m \<Longrightarrow> effectiveSeedWeight rc m \<le> effectiveSeedWeight rc n"
  unfolding effectiveSeedWeight_def by (simp add: max.coboundedI2)

text \<open>
  C4. In radio mode (a seed is set) with progressive drift enabled, the base score of a
  candidate is \<open>rawScore * (1 - w) + seedRelevance * w\<close> with
  \<open>w = max(0.3, seedWeight - 0.02 * radioTracksPlayed)\<close>; \<open>w\<close> never drops below 0.3 and
  does not grow as more radio tracks are played; the default seed weight is 0.7.
\<close>

theorem C4_radio_base_score:
  assumes "mode state = Radio" "radioSeed state = Some seed"
    and "progressiveDrift (radioConfig state)"
  shows "baseScore getHybridScore calculateTrackScore isModelLoaded state track
           = (if useMLRecommendations (config state) \<and> isModelLoaded
              then getHybridScore track else calculateTrackScore track)
               * (1 - max (3 / 10) (seedWeight (radioConfig state)
                                      - 2 / 100 * real (radioTracksPlayed state)))
             + calculateSeedRelevance track seed
               * max (3 / 10) (seedWeight (radioConfig state)
                                 - 2 / 100 * real (radioTracksPlayed state))
         \<and> effectiveSeedWeight (radioConfig state) (radioTracksPlayed state)
             = max (3 / 10) (seedWeight (radioConfig state)
                               - 2 / 100 * real (radioTracksPlayed state))
         \<and> 3 / 10 \<le> effectiveSeedWeight (radioConfig state) played
         \<and> effectiveSeedWeight (radioConfig state) (played + later)
             \<le> effectiveSeedWeight (radioConfig state) played
         \<and> seedWeight DEFAULT_RADIO_CONFIG = 7 / 10"
proof (intro conjI)
  show w: "effectiveSeedWeight (radioConfig state) (radioTracksPlayed state)
             = max (3 / 10) (seedWeight (radioConfig state)
                               - 2 / 100 * real (radioTracksPlayed state))"
    unfolding effectiveSeedWeight_def using assms(3) by (simp add: mult.commute)
  show "baseScore getHybridScore calculateTrackScore isModelLoaded state track
           = (if useMLRecommendations (config state) \<and> isModelLoaded
              then getHybridScore track else calculateTrackScore track)
               * (1 - max (3 / 10) (seedWeight (radioConfig state)
                                      - 2 / 100 * real (radioTracksPlayed state)))
             + calculateSeedRelevance track seed
               * max (3 / 10) (seedWeight (radioConfig state)
                                 - 2 / 100 * real (radioTracksPlayed state))"
    unfolding baseScore_def w using assms(1,2) by (simp add: Let_def)
  show "3 / 10 \<le> effectiveSeedWeight (radioConfig state) played"
    unfolding effectiveSeedWeight_def using assms(3) by simp
  show "effectiveSeedWeight (radioConfig state) (played + later)
             \<le> effectiveSeedWeight (radioConfig state) played"
    by (rule effectiveSeedWeight_mono) simp
  show "seedWeight DEFAULT_RADIO_CONFIG = 7 / 10"
    unfolding DEFAULT_RADIO_CONFIG_def by simp
qed


theorem C4_radio_base_score_witness:
  "mode exampleRadioState = Radio \<and> radioSeed exampleRadioState = Some exampleSeed
   \<and> progressiveDrift (radioConfig exampleRadioState)
   \<and> radioTracksPlayed exampleRadioState = 5
   \<and> effectiveSeedWeight (radioConfig exampleRadioState) 5 = 6 / 10
   \<and> baseScore (\<lambda>t. 40) (\<lambda>t. 20) True exampleRadioState (exampleTrack ''t1'' ''Ann'')
       = 40 * (4 / 10) + 50 * (6 / 10)"
proof -
  have st: "mode exampleRadioState = Radio" "radioSeed exampleRadioState = Some exampleSeed"
    "progressiveDrift (radioConfig exampleRadioState)"
    unfolding exampleRadioState_def exampleState_def DEFAULT_RADIO_CONFIG_def by simp_all
  have vals: "radioTracksPlayed exampleRadioState = 5"
    "seedWeight (radioConfig exampleRadioState) = 7 / 10"
    "useMLRecommendations (config exampleRadioState)"
    unfolding exampleRadioState_def exampleState_def DEFAULT_RADIO_CONFIG_def
      DEFAULT_CONFIG_def by simp_all
  have rel: "calculateSeedRelevance (exampleTrack ''t1'' ''Ann'') exampleSeed = 50"
    by code_simp
  from C4_radio_base_score [OF st, of "\<lambda>t. 40" "\<lambda>t. 20" True "exampleTrack ''t1'' ''Ann''" 0 0]
  show ?thesis
    using st vals rel by simp
qed

section \<open>Exploration mode: theorems\<close>

lemma discoveryRatio_exploit_iff:
  assumes "0 < length localTracks + length discoveryTracks + length similarTracks"
  shows "discoveryRatio localTracks discoveryTracks similarTracks > 6 / 10
           \<longleftrightarrow> 2 * (length discoveryTracks + length similarTracks) > 3 * length localTracks"
proof -
  let ?d = "real (length discoveryTracks + length similarTracks)"
  let ?l = "real (length localTracks)"
  have tot: "real (max 1 (length localTracks + (length discoveryTracks + length similarTracks)))
               = ?l + ?d"
  proof -
    have "1 \<le> length localTracks + (length discoveryTracks + length similarTracks)"
      using assms by linarith
    then show ?thesis by (simp add: max_absorb2)
  qed
  have pos: "0 < ?l + ?d"
  proof -
    have "0 < length localTracks + (length discoveryTracks + length similarTracks)"
      using assms by linarith
    then have "0 < real (length localTracks + (length discoveryTracks + length similarTracks))"
      by (simp only: of_nat_0_less_iff)
    then show ?thesis by (simp only: of_nat_add)
  qed
  have "discoveryRatio localTracks discoveryTracks similarTracks > 6 / 10
          \<longleftrightarrow> 6 / 10 < ?d / (?l + ?d)"
    unfolding discoveryRatio_def Let_def tot by simp
  also have "\<dots> \<longleftrightarrow> 6 / 10 * (?l + ?d) < ?d"
    using pos by (simp add: pos_less_divide_eq)
  also have "\<dots> \<longleftrightarrow> 3 * ?l < 2 * ?d" by argo
  also have "\<dots> \<longleftrightarrow> 3 * length localTracks < 2 * (length discoveryTracks + length similarTracks)"
    by (metis of_nat_less_iff of_nat_mult of_nat_numeral)
  finally show ?thesis by simp
qed

lemma discoveryRatio_explore_iff:
  assumes "0 < length localTracks + length discoveryTracks + length similarTracks"
  shows "discoveryRatio localTracks discoveryTracks similarTracks < 3 / 10
           \<longleftrightarrow> 7 * (length discoveryTracks + length similarTracks) < 3 * length localTracks"
proof -
  let ?d = "real (length discoveryTracks + length similarTracks)"
  let ?l = "real (length localTracks)"
  have tot: "real (max 1 (length localTracks + (length discoveryTracks + length similarTracks)))
               = ?l + ?d"
  proof -
    have "1 \<le> length localTracks + (length discoveryTracks + length similarTracks)"
      using assms by linarith
    then show ?thesis by (simp add: max_absorb2)
  qed
  have pos: "0 < ?l + ?d"
  proof -
    have "0 < length localTracks + (length discoveryTracks + length similarTracks)"
      using assms by linarith
    then have "0 < real (length localTracks + (length discoveryTracks + length similarTracks))"
      by (simp only: of_nat_0_less_iff)
    then show ?thesis by (simp only: of_nat_add)
  qed
  have "discoveryRatio localTracks discoveryTracks similarTracks < 3 / 10
          \<longleftrightarrow> ?d / (?l + ?d) < 3 / 10"
    unfolding discoveryRatio_def Let_def tot by simp
  also have "\<dots> \<longleftrightarrow> ?d < 3 / 10 * (?l + ?d)"
    using pos by (simp add: pos_divide_less_eq)
  also have "\<dots> \<longleftrightarrow> 7 * ?d < 3 * ?l" by argo
  also have "\<dots> \<longleftrightarrow> 7 * (length discoveryTracks + length similarTracks) < 3 * length localTracks"
    by (metis of_nat_less_iff of_nat_mult of_nat_numeral)
  finally show ?thesis by simp
qed

text \<open>
  C8, amended. The mode is chosen from the share of discovery candidates (discovery and
  similar tracks) among all candidates found,
  \<open>discoveryCount / max(1, localCount + discoveryCount)\<close>: exploit when the share exceeds
  0.6, explore when it is below 0.3, balanced otherwise. Put in terms of discovery to
  local candidates, exploit means more than 3 discovery for 2 local, and explore fewer
  than 3 discovery for 7 local.
\<close>

theorem C8_exploration_mode:
  "explorationMode localTracks discoveryTracks similarTracks
     = (if discoveryRatio localTracks discoveryTracks similarTracks > 6 / 10 then Exploit
        else if discoveryRatio localTracks discoveryTracks similarTracks < 3 / 10 then Explore
        else Balanced)
   \<and> discoveryRatio localTracks discoveryTracks similarTracks
       = real (length discoveryTracks + length similarTracks)
         / real (max 1 (length localTracks + length discoveryTracks + length similarTracks))
   \<and> (0 < length localTracks + length discoveryTracks + length similarTracks \<longrightarrow>
        (explorationMode localTracks discoveryTracks similarTracks = Exploit
           \<longleftrightarrow> 2 * (length discoveryTracks + length similarTracks) > 3 * length localTracks)
        \<and> (explorationMode localTracks discoveryTracks similarTracks = Explore
           \<longleftrightarrow> 7 * (length discoveryTracks + length similarTracks) < 3 * length localTracks))"
proof (intro conjI impI)
  show "explorationMode localTracks discoveryTracks similarTracks
     = (if discoveryRatio localTracks discoveryTracks similarTracks > 6 / 10 then Exploit
        else if discoveryRatio localTracks discoveryTracks similarTracks < 3 / 10 then Explore
        else Balanced)"
    unfolding explorationMode_def by (simp add: Let_def)
  show "discoveryRatio localTracks discoveryTracks similarTracks
       = real (length discoveryTracks + length similarTracks)
         / real (max 1 (length localTracks + length discoveryTracks + length similarTracks))"
    unfolding discoveryRatio_def by (simp add: Let_def add.assoc)
next
  assume pos: "0 < length localTracks + length discoveryTracks + length similarTracks"
  show "explorationMode localTracks discoveryTracks similarTracks = Exploit
           \<longleftrightarrow> 2 * (length discoveryTracks + length similarTracks) > 3 * length localTracks"
    unfolding explorationMode_def Let_def
    using discoveryRatio_exploit_iff [OF pos] by simp
  show "explorationMode localTracks discoveryTracks similarTracks = Explore
           \<longleftrightarrow> 7 * (length discoveryTracks + length similarTracks) < 3 * length localTracks"
    unfolding explorationMode_def Let_def
    using discoveryRatio_exploit_iff [OF pos] discoveryRatio_explore_iff [OF pos] by auto
qed

theorem C8_exploration_mode_witness:
  "0 < length (replicate 10 ()) + length (replicate 7 ()) + length ([] :: unit list)
   \<and> explorationMode (replicate 10 ()) (replicate 7 ()) [] = Balanced
   \<and> explorationMode (replicate 2 ()) (replicate 7 ()) [()] = Exploit
   \<and> explorationMode (replicate 10 ()) (replicate 3 ()) [()] = Explore"
proof -
  have p1: "0 < length (replicate 10 ()) + length (replicate 7 ()) + length ([] :: unit list)"
    by simp
  have p2: "0 < length (replicate 2 ()) + length (replicate 7 ()) + length [()]"
    by simp
  have p3: "0 < length (replicate 10 ()) + length (replicate 3 ()) + length [()]"
    by simp
  have a: "explorationMode (replicate 10 ()) (replicate 7 ()) [] \<noteq> Exploit
         \<and> explorationMode (replicate 10 ()) (replicate 7 ()) [] \<noteq> Explore"
    using C8_exploration_mode [of "replicate 10 ()" "replicate 7 ()" "[]"] p1 by simp
  have b: "explorationMode (replicate 2 ()) (replicate 7 ()) [()] = Exploit"
    using C8_exploration_mode [of "replicate 2 ()" "replicate 7 ()" "[()]"] p2 by simp
  have c: "explorationMode (replicate 10 ()) (replicate 3 ()) [()] = Explore"
    using C8_exploration_mode [of "replicate 10 ()" "replicate 3 ()" "[()]"] p3 by simp
  from a have "explorationMode (replicate 10 ()) (replicate 7 ()) [] = Balanced"
    by (cases "explorationMode (replicate 10 ()) (replicate 7 ()) []") simp_all
  then show ?thesis using p1 b c by simp
qed

text \<open>
  C8, as worded: with 10 local and 7 discovery candidates the ratio of discovery to local
  candidates is 0.7, above 0.6, yet the mode chosen is balanced and not exploit.
\<close>

theorem C8_counterexample:
  "explorationMode (replicate 10 ()) (replicate 7 ()) [] = Balanced
   \<and> spec_discovery_to_local 7 10 = Some (7 / 10)
   \<and> spec_explorationMode 7 10 = Some Exploit"
  unfolding explorationMode_def discoveryRatio_def spec_explorationMode_def
    spec_discovery_to_local_def
  by (simp add: Let_def)

section \<open>Session history: theorems\<close>

lemma slice_from_negative:
  "0 < n \<Longrightarrow> slice_from (- n) xs = drop (length xs - nat n) xs"
  unfolding slice_from_def Let_def
  by (auto simp: max_def nat_diff_distrib' intro: arg_cong [where f = "\<lambda>k. drop k xs"])

lemma recordTrackPlayed_ids:
  "playedTrackIds (sessionHistory (recordTrackPlayed track state))
     = drop (length (playedTrackIds (sessionHistory state)) + 1 - 200)
         (playedTrackIds (sessionHistory state) @ [track_id track])"
  unfolding recordTrackPlayed_def Let_def MAX_SESSION_HISTORY_def
  by (simp add: slice_from_negative)

lemma recordTrackPlayed_artists:
  "playedArtistIds (sessionHistory (recordTrackPlayed track state))
     = drop (length (playedArtistIds (sessionHistory state)) + length (artists track) - 400)
         (playedArtistIds (sessionHistory state) @ map artistKey (artists track))"
  unfolding recordTrackPlayed_def Let_def MAX_SESSION_HISTORY_def
  by (simp add: slice_from_negative)

text \<open>
  C7. After \<^verbatim>\<open>recordTrackPlayed\<close> the played track ids number at most 200 and the played
  artist ids at most 400, from any starting state and so from any within these bounds.
  The new lists are the tails of the old lists with the new entries appended: the oldest
  entries are dropped first and the track just played is kept. From a state within the
  bound, at most the one oldest track id is dropped.
\<close>

theorem C7_session_history_bounds:
  "length (playedTrackIds (sessionHistory (recordTrackPlayed track state))) \<le> 200
   \<and> length (playedArtistIds (sessionHistory (recordTrackPlayed track state))) \<le> 400
   \<and> suffix (playedTrackIds (sessionHistory (recordTrackPlayed track state)))
        (playedTrackIds (sessionHistory state) @ [track_id track])
   \<and> suffix (playedArtistIds (sessionHistory (recordTrackPlayed track state)))
        (playedArtistIds (sessionHistory state) @ map artistKey (artists track))
   \<and> last (playedTrackIds (sessionHistory (recordTrackPlayed track state))) = track_id track
   \<and> (length (playedTrackIds (sessionHistory state)) \<le> 200 \<longrightarrow>
        playedTrackIds (sessionHistory (recordTrackPlayed track state))
          = (if length (playedTrackIds (sessionHistory state)) = 200
             then tl (playedTrackIds (sessionHistory state))
             else playedTrackIds (sessionHistory state)) @ [track_id track])"
proof (intro conjI impI)
  show "length (playedTrackIds (sessionHistory (recordTrackPlayed track state))) \<le> 200"
    unfolding recordTrackPlayed_ids by simp
  show "length (playedArtistIds (sessionHistory (recordTrackPlayed track state))) \<le> 400"
    unfolding recordTrackPlayed_artists by simp
  show "suffix (playedTrackIds (sessionHistory (recordTrackPlayed track state)))
        (playedTrackIds (sessionHistory state) @ [track_id track])"
    unfolding recordTrackPlayed_ids by (rule suffix_drop)
  show "suffix (playedArtistIds (sessionHistory (recordTrackPlayed track state)))
        (playedArtistIds (sessionHistory state) @ map artistKey (artists track))"
    unfolding recordTrackPlayed_artists by (rule suffix_drop)
  show "last (playedTrackIds (sessionHistory (recordTrackPlayed track state))) = track_id track"
    unfolding recordTrackPlayed_ids by (simp add: last_drop)
next
  assume "length (playedTrackIds (sessionHistory state)) \<le> 200"
  then show "playedTrackIds (sessionHistory (recordTrackPlayed track state))
          = (if length (playedTrackIds (sessionHistory state)) = 200
             then tl (playedTrackIds (sessionHistory state))
             else playedTrackIds (sessionHistory state)) @ [track_id track]"
    unfolding recordTrackPlayed_ids
    by (cases "playedTrackIds (sessionHistory state)") (auto simp: drop_Suc)
qed

theorem C7_session_history_bounds_witness:
  "length (playedTrackIds (sessionHistory exampleState)) \<le> 200
   \<and> playedTrackIds (sessionHistory
        (recordTrackPlayed (exampleTrack ''t1'' ''Ann'') exampleState)) = [''t1'']
   \<and> playedArtistIds (sessionHistory
        (recordTrackPlayed (exampleTrack ''t1'' ''Ann'') exampleState)) = [''Ann'']"
proof -
  have p: "length (playedTrackIds (sessionHistory exampleState)) \<le> 200"
    and e: "playedTrackIds (sessionHistory exampleState) = []"
    unfolding exampleState_def by simp_all
  have a: "playedArtistIds (sessionHistory
        (recordTrackPlayed (exampleTrack ''t1'' ''Ann'') exampleState)) = [''Ann'']"
    by code_simp
  from C7_session_history_bounds [of "exampleTrack ''t1'' ''Ann''" exampleState] p
  have "playedTrackIds (sessionHistory
          (recordTrackPlayed (exampleTrack ''t1'' ''Ann'') exampleState))
        = (if length (playedTrackIds (sessionHistory exampleState)) = 200
           then tl (playedTrackIds (sessionHistory exampleState))
           else playedTrackIds (sessionHistory exampleState))
          @ [track_id (exampleTrack ''t1'' ''Ann'')]"
    by blast
  then show ?thesis using p a unfolding e by (simp add: exampleTrack_def)
qed

text \<open>
  C5, amended. \<^verbatim>\<open>clearSession\<close> always clears the session: the played track ids and
  artist ids become empty and the session start time is renewed. \<^verbatim>\<open>resetSession\<close> clears
  the session exactly when more than 4 hours (14 400 000 ms) have passed since the
  session start time, and leaves the state as it is otherwise. Playing a track does not
  move the session start time.
\<close>

theorem C5_session_reset:
  "sessionCleared now (clearSession now state)
   \<and> radioTracksPlayed (clearSession now state) = 0
   \<and> (now - sessionStartTime (sessionHistory state) > SESSION_TIMEOUT_MS \<longrightarrow>
        resetSession now state = clearSession now state)
   \<and> (now - sessionStartTime (sessionHistory state) \<le> SESSION_TIMEOUT_MS \<longrightarrow>
        resetSession now state = state)
   \<and> SESSION_TIMEOUT_MS = 14400000
   \<and> sessionStartTime (sessionHistory (recordTrackPlayed track state))
       = sessionStartTime (sessionHistory state)"
proof (intro conjI impI)
  show "sessionCleared now (clearSession now state)"
    unfolding sessionCleared_def clearSession_def by simp
  show "radioTracksPlayed (clearSession now state) = 0"
    unfolding clearSession_def by simp
  show "SESSION_TIMEOUT_MS = 14400000"
    unfolding SESSION_TIMEOUT_MS_def by simp
  show "sessionStartTime (sessionHistory (recordTrackPlayed track state))
       = sessionStartTime (sessionHistory state)"
    unfolding recordTrackPlayed_def by (simp add: Let_def)
next
  assume "now - sessionStartTime (sessionHistory state) > SESSION_TIMEOUT_MS"
  then show "resetSession now state = clearSession now state"
    unfolding resetSession_def by (simp add: Let_def)
next
  assume "now - sessionStartTime (sessionHistory state) \<le> SESSION_TIMEOUT_MS"
  then show "resetSession now state = state"
    unfolding resetSession_def by (simp add: Let_def)
qed

theorem C5_session_reset_witness:
  "14400001 - sessionStartTime (sessionHistory exampleState) > SESSION_TIMEOUT_MS
   \<and> sessionCleared 14400001 (resetSession 14400001 exampleState)
   \<and> 14400000 - sessionStartTime (sessionHistory exampleState) \<le> SESSION_TIMEOUT_MS
   \<and> resetSession 14400000 exampleState = exampleState"
proof -
  have late: "14400001 - sessionStartTime (sessionHistory exampleState) > SESSION_TIMEOUT_MS"
    and edge: "14400000 - sessionStartTime (sessionHistory exampleState) \<le> SESSION_TIMEOUT_MS"
    unfolding exampleState_def SESSION_TIMEOUT_MS_def by simp_all
  from C5_session_reset [of 14400001 exampleState] late
  have a: "sessionCleared 14400001 (resetSession 14400001 exampleState)"
    by simp
  from C5_session_reset [of 14400000 exampleState] edge
  have b: "resetSession 14400000 exampleState = exampleState"
    by blast
  show ?thesis using late edge a b by blast
qed

text \<open>
  C5, as worded: a session that started at time 0 and played a track at 14 399 000 ms
  has been inactive for 1001 ms at 14 400 001 ms, far less than 4 hours, and
  \<^verbatim>\<open>resetSession\<close> clears it all the same.
\<close>

theorem C5_counterexample:
  "playedTrackIds (sessionHistory (runEvents exampleEvents exampleState)) = [''t1'']
   \<and> sessionStartTime (sessionHistory exampleState) = 0
   \<and> 14400001 - spec_lastActivity 0 exampleEvents = 1001
   \<and> (1001 :: int) < SESSION_TIMEOUT_MS
   \<and> sessionCleared 14400001
        (runEvents (exampleEvents @ [(14400001, ResetSession)]) exampleState)"
  by code_simp

section \<open>Replenishment: theorems\<close>

text \<open>
  C6. \<^verbatim>\<open>checkAndReplenish\<close> does not call \<^verbatim>\<open>fetchMoreTracks\<close>, and changes nothing, when
  the mode is manual, or auto-queue is disabled and the mode is not radio, or a fetch is
  in flight, or fewer than 5000 ms have passed since the last fetch, or the number of
  remaining queued tracks exceeds the configured threshold (2 by default).
\<close>

theorem C6_no_fetch_when_guarded:
  assumes "mode (store w) = Manual
     \<or> (\<not> autoQueueEnabled (config (store w)) \<and> mode (store w) \<noteq> Radio)
     \<or> isAutoQueueFetching (store w)
     \<or> now - lastAutoQueueFetch (store w) < 5000
     \<or> int (length (queue (player w))) - queueIndex (player w) - 1
         > autoQueueThreshold (config (store w))"
  shows "checkAndReplenish env now now' availableTracks w = (False, w)
     \<and> autoQueueThreshold DEFAULT_CONFIG = 2"
proof
  show "checkAndReplenish env now now' availableTracks w = (False, w)"
    using assms unfolding checkAndReplenish_def MIN_FETCH_INTERVAL_MS_def Let_def
    by auto
  show "autoQueueThreshold DEFAULT_CONFIG = 2"
    unfolding DEFAULT_CONFIG_def by simp
qed

theorem C6_no_fetch_when_guarded_witness:
  "checkAndReplenish exampleEnv 10000 10250 []
       (exampleWorld\<lparr> store := (store exampleWorld)\<lparr> mode := Manual \<rparr> \<rparr>)
     = (False, exampleWorld\<lparr> store := (store exampleWorld)\<lparr> mode := Manual \<rparr> \<rparr>)
   \<and> checkAndReplenish exampleEnv 10000 10250 []
       (exampleWorld\<lparr> store := (store exampleWorld)\<lparr> mode := AutoQueue \<rparr> \<rparr>)
     = (False, exampleWorld\<lparr> store := (store exampleWorld)\<lparr> mode := AutoQueue \<rparr> \<rparr>)
   \<and> checkAndReplenish exampleEnv 10000 10250 []
       (exampleWorld\<lparr> store := (store exampleWorld)\<lparr> isAutoQueueFetching := True \<rparr> \<rparr>)
     = (False, exampleWorld\<lparr> store := (store exampleWorld)\<lparr> isAutoQueueFetching := True \<rparr> \<rparr>)
   \<and> checkAndReplenish exampleEnv 4999 5250 [] exampleWorld = (False, exampleWorld)
   \<and> checkAndReplenish exampleEnv 10000 10250 []
       (exampleWorld\<lparr> player := (player exampleWorld)\<lparr> queueIndex := - 3 \<rparr> \<rparr>)
     = (False, exampleWorld\<lparr> player := (player exampleWorld)\<lparr> queueIndex := - 3 \<rparr> \<rparr>)
   \<and> fst (checkAndReplenish exampleEnv 10000 10250 [] exampleWorld)"
proof -
  have g1: "mode (store (exampleWorld\<lparr> store := (store exampleWorld)\<lparr> mode := Manual \<rparr> \<rparr>))
              = Manual"
    by simp
  have g2: "\<not> autoQueueEnabled (config (store
               (exampleWorld\<lparr> store := (store exampleWorld)\<lparr> mode := AutoQueue \<rparr> \<rparr>)))
            \<and> mode (store (exampleWorld\<lparr> store := (store exampleWorld)\<lparr> mode := AutoQueue \<rparr> \<rparr>))
                \<noteq> Radio"
    unfolding exampleWorld_def exampleRadioState_def exampleState_def DEFAULT_CONFIG_def
    by simp
  have g3: "isAutoQueueFetching (store
               (exampleWorld\<lparr> store := (store exampleWorld)\<lparr> isAutoQueueFetching := True \<rparr> \<rparr>))"
    by simp
  have g4: "4999 - lastAutoQueueFetch (store exampleWorld) < 5000"
    unfolding exampleWorld_def exampleRadioState_def exampleState_def by simp
  have g5: "int (length (queue (player
               (exampleWorld\<lparr> player := (player exampleWorld)\<lparr> queueIndex := - 3 \<rparr> \<rparr>))))
            - queueIndex (player
               (exampleWorld\<lparr> player := (player exampleWorld)\<lparr> queueIndex := - 3 \<rparr> \<rparr>)) - 1
            > autoQueueThreshold (config (store
               (exampleWorld\<lparr> player := (player exampleWorld)\<lparr> queueIndex := - 3 \<rparr> \<rparr>)))"
    unfolding exampleWorld_def exampleRadioState_def exampleState_def DEFAULT_CONFIG_def
    by simp
  have go: "fst (checkAndReplenish exampleEnv 10000 10250 [] exampleWorld)"
    by code_simp
  show ?thesis
    using C6_no_fetch_when_guarded [of _ 10000 exampleEnv 10250 "[]", OF disjI1, OF g1]
      C6_no_fetch_when_guarded [of _ 10000 exampleEnv 10250 "[]", OF disjI2, OF disjI1, OF g2]
      C6_no_fetch_when_guarded [of _ 10000 exampleEnv 10250 "[]",
        OF disjI2, OF disjI2, OF disjI1, OF g3]
      C6_no_fetch_when_guarded [of exampleWorld 4999 exampleEnv 5250 "[]",
        OF disjI2, OF disjI2, OF disjI2, OF disjI1, OF g4]
      C6_no_fetch_when_guarded [of _ 10000 exampleEnv 10250 "[]",
        OF disjI2, OF disjI2, OF disjI2, OF disjI2, OF g5]
      go
    by blast
qed

lemma fetchMoreTracks_selection_empty: "fetchMoreTracks_selection h cfg rank [] = []"
  unfolding fetchMoreTracks_selection_def by simp

text \<open>
  C9. When the replenishment is triggered and the fetch comes back with no tracks (as
  it does when no candidate is left after filtering), \<^verbatim>\<open>checkAndReplenish\<close> ends in an
  ordinary state: the error is the string \<^verbatim>\<open>No matching tracks found\<close>, the count of
  consecutive failures is one more than it was, no fetch is in flight any more, the fetch
  time is recorded, and the player's queue is untouched. A later call within 5000 ms of
  the recorded time does not fetch.
\<close>

theorem C9_no_candidates:
  assumes "mode (store w) \<noteq> Manual"
    and "autoQueueEnabled (config (store w)) \<or> mode (store w) = Radio"
    and "\<not> isAutoQueueFetching (store w)"
    and "MIN_FETCH_INTERVAL_MS \<le> now - lastAutoQueueFetch (store w)"
    and "int (length (queue (player w))) - queueIndex (player w) - 1
           \<le> autoQueueThreshold (config (store w))"
    and "fetchMoreTracks env (w\<lparr> store := (store w)\<lparr> isAutoQueueFetching := True \<rparr> \<rparr>)
           availableTracks = Resolved []"
  shows "checkAndReplenish env now now' availableTracks w
           = (True, w\<lparr> store := (store w)\<lparr> isAutoQueueFetching := False,
                          lastAutoQueueFetch := now',
                          autoQueueError := Some ''No matching tracks found'',
                          consecutiveFailures := consecutiveFailures (store w) + 1 \<rparr> \<rparr>)
     \<and> player (snd (checkAndReplenish env now now' availableTracks w)) = player w
     \<and> autoQueueError (store (snd (checkAndReplenish env now now' availableTracks w)))
         = Some ''No matching tracks found''
     \<and> consecutiveFailures (store (snd (checkAndReplenish env now now' availableTracks w)))
         = consecutiveFailures (store w) + 1
     \<and> \<not> isAutoQueueFetching (store (snd (checkAndReplenish env now now' availableTracks w)))
     \<and> lastAutoQueueFetch (store (snd (checkAndReplenish env now now' availableTracks w))) = now'
     \<and> (later - now' < MIN_FETCH_INTERVAL_MS \<longrightarrow>
          \<not> fst (checkAndReplenish env2 later later' availableTracks2
                   (snd (checkAndReplenish env now now' availableTracks w))))
     \<and> fetchMoreTracks_selection h cfg rank [] = []"
proof -
  let ?w' = "w\<lparr> store := (store w)\<lparr> isAutoQueueFetching := False,
                          lastAutoQueueFetch := now',
                          autoQueueError := Some ''No matching tracks found'',
                          consecutiveFailures := consecutiveFailures (store w) + 1 \<rparr> \<rparr>"
  have run: "checkAndReplenish env now now' availableTracks w = (True, ?w')"
    using assms unfolding checkAndReplenish_def Let_def by simp
  have limited: "\<not> fst (checkAndReplenish env2 later later' availableTracks2 ?w')"
    if "later - now' < MIN_FETCH_INTERVAL_MS"
    using that unfolding checkAndReplenish_def Let_def by simp
  show ?thesis
    unfolding run using limited fetchMoreTracks_selection_empty by simp
qed

theorem C9_no_candidates_witness:
  "mode (store exampleWorld) = Radio
   \<and> fetchMoreTracks exampleEnv
        (exampleWorld\<lparr> store := (store exampleWorld)\<lparr> isAutoQueueFetching := True \<rparr> \<rparr>) []
       = Resolved []
   \<and> consecutiveFailures (store exampleWorld) = 0
   \<and> consecutiveFailures (store (snd (checkAndReplenish exampleEnv 10000 10250 [] exampleWorld)))
       = 1
   \<and> autoQueueError (store (snd (checkAndReplenish exampleEnv 10000 10250 [] exampleWorld)))
       = Some ''No matching tracks found''
   \<and> lastAutoQueueFetch (store (snd (checkAndReplenish exampleEnv 10000 10250 [] exampleWorld)))
       = 10250
   \<and> player (snd (checkAndReplenish exampleEnv 10000 10250 [] exampleWorld))
       = player exampleWorld
   \<and> \<not> fst (checkAndReplenish exampleEnv 15249 15300 []
              (snd (checkAndReplenish exampleEnv 10000 10250 [] exampleWorld)))"
proof -
  have m: "mode (store exampleWorld) = Radio"
    and c0: "consecutiveFailures (store exampleWorld) = 0"
    unfolding exampleWorld_def exampleRadioState_def exampleState_def by simp_all
  have a1: "mode (store exampleWorld) \<noteq> Manual" using m by simp
  have a2: "autoQueueEnabled (config (store exampleWorld)) \<or> mode (store exampleWorld) = Radio"
    using m by simp
  have a3: "\<not> isAutoQueueFetching (store exampleWorld)"
    unfolding exampleWorld_def exampleRadioState_def exampleState_def by simp
  have a4: "MIN_FETCH_INTERVAL_MS \<le> 10000 - lastAutoQueueFetch (store exampleWorld)"
    unfolding exampleWorld_def exampleRadioState_def exampleState_def MIN_FETCH_INTERVAL_MS_def
    by simp
  have a5: "int (length (queue (player exampleWorld))) - queueIndex (player exampleWorld) - 1
           \<le> autoQueueThreshold (config (store exampleWorld))"
    unfolding exampleWorld_def exampleRadioState_def exampleState_def DEFAULT_CONFIG_def
    by simp
  have a6: "fetchMoreTracks exampleEnv
        (exampleWorld\<lparr> store := (store exampleWorld)\<lparr> isAutoQueueFetching := True \<rparr> \<rparr>) []
       = Resolved []"
    unfolding exampleEnv_def by simp
  have lim: "(15249 :: int) - 10250 < MIN_FETCH_INTERVAL_MS"
    unfolding MIN_FETCH_INTERVAL_MS_def by simp
  note run = C9_no_candidates [where w = exampleWorld and env = exampleEnv and now = 10000
        and now' = 10250 and availableTracks = "[]" and later = 15249 and later' = 15300
        and ?env2.0 = exampleEnv and ?availableTracks2.0 = "[]" and h = exampleHeap
        and cfg = DEFAULT_CONFIG and rank = id, OF a1 a2 a3 a4 a5 a6]
  from run have r1: "consecutiveFailures
        (store (snd (checkAndReplenish exampleEnv 10000 10250 [] exampleWorld)))
       = consecutiveFailures (store exampleWorld) + 1"
    by blast
  from run have r2: "autoQueueError
        (store (snd (checkAndReplenish exampleEnv 10000 10250 [] exampleWorld)))
       = Some ''No matching tracks found''"
    by blast
  from run have r3: "lastAutoQueueFetch
        (store (snd (checkAndReplenish exampleEnv 10000 10250 [] exampleWorld))) = 10250"
    by blast
  from run have r4: "player (snd (checkAndReplenish exampleEnv 10000 10250 [] exampleWorld))
       = player exampleWorld"
    by blast
  from run lim have r5: "\<not> fst (checkAndReplenish exampleEnv 15249 15300 []
              (snd (checkAndReplenish exampleEnv 10000 10250 [] exampleWorld)))"
    by blast
  have r1': "consecutiveFailures
        (store (snd (checkAndReplenish exampleEnv 10000 10250 [] exampleWorld))) = 1"
    unfolding r1 c0 by simp
  show ?thesis
    by (intro conjI m a6 c0 r1' r2 r3 r4 r5)
qed

end
